theory Spec2Isabelle
  imports Main
begin

section \<open>Values, rows and the standard library's row reader\<close>

text \<open>
  Both scripts read their input with \<^verbatim>\<open>csv.DictReader\<close> and look two columns up in each
  row. A Python \<^verbatim>\<open>str\<close> is modelled as a \<open>string\<close>; a \<open>char\<close> stands for the code
  point of the same number, so the model covers the code points up to U+00FF.

  A row is a Python dict. Its keys are the field names of the header, and the key
  \<^verbatim>\<open>None\<close> (the reader's \<^verbatim>\<open>restkey\<close>) when the row is longer than the header. Its
  values are texts, \<^verbatim>\<open>None\<close> (the reader's \<^verbatim>\<open>restval\<close>, stored for every field name a
  short row does not reach) or, under the key \<^verbatim>\<open>None\<close>, the list of the surplus fields.
\<close>

datatype pyval = Str string | NoneVal | StrList "string list"

type_synonym row = "string option \<rightharpoonup> pyval"

datatype error = AttributeError | FileNotFoundError

text \<open>
  \<^verbatim>\<open>DictReader.__next__\<close> of the standard library, on the fields of one parsed line:
  \<^verbatim>\<open>
  d = dict(zip(self.fieldnames, row))
  lf = len(self.fieldnames)
  lr = len(row)
  if lf < lr:
      d[self.restkey] = row[lf:]
  elif lf > lr:
      for key in self.fieldnames[lr:]:
          d[key] = self.restval
  return d
  \<close>
  \<^verbatim>\<open>dict(zip(...))\<close> stores the pairs from left to right, so that of two columns with one
  name the later one stays.
\<close>

definition dict_row :: "string list \<Rightarrow> string list \<Rightarrow> row" where
  "dict_row fieldnames fields =
     (let d = fold (\<lambda>(k, v) m. m(Some k \<mapsto> Str v)) (zip fieldnames fields) Map.empty;
          lf = length fieldnames;
          lr = length fields
      in if lf < lr then d(None \<mapsto> StrList (drop lf fields))
         else if lf > lr then fold (\<lambda>key m. m(Some key \<mapsto> NoneVal)) (drop lr fieldnames) d
         else d)"

text \<open>
  The reader over the parsed lines of a file: the first line is the header
  (\<^verbatim>\<open>fieldnames\<close>), a line without any field (\<^verbatim>\<open>row == []\<close>) is skipped, and a file
  without a header line has no rows.
\<close>

definition DictReader :: "string list list \<Rightarrow> row list" where
  "DictReader parsed =
     (case parsed of
        [] \<Rightarrow> []
      | fieldnames # rest \<Rightarrow> map (dict_row fieldnames) (filter (\<lambda>r. r \<noteq> []) rest))"

subsection \<open>\<^verbatim>\<open>row.get(key, '')\<close> and \<^verbatim>\<open>.strip()\<close>\<close>

text \<open>\<^verbatim>\<open>dict.get(key, default)\<close>: the stored value when the key is there, else the default.\<close>

definition row_get :: "row \<Rightarrow> string \<Rightarrow> pyval \<Rightarrow> pyval" where
  "row_get r key dflt = (case r (Some key) of None \<Rightarrow> dflt | Some v \<Rightarrow> v)"

text \<open>
  \<^verbatim>\<open>str.isspace\<close> on one character, for the code points up to U+00FF: U+0009 to U+000D,
  U+001C to U+0020, U+0085 and U+00A0.
\<close>

definition isspace :: "char \<Rightarrow> bool" where
  "isspace c =
     (let n = (of_char c :: nat)
      in (9 \<le> n \<and> n \<le> 13) \<or> (28 \<le> n \<and> n \<le> 32) \<or> n = 133 \<or> n = 160)"

text \<open>\<^verbatim>\<open>str.strip()\<close> without argument removes the leading and the trailing whitespace.\<close>

definition strip :: "string \<Rightarrow> string" where
  "strip s = rev (dropWhile isspace (rev (dropWhile isspace s)))"

text \<open>
  \<^verbatim>\<open>v.strip()\<close> on a value: only a text has the method; on \<^verbatim>\<open>None\<close> and on a list the
  attribute lookup raises \<^verbatim>\<open>AttributeError\<close>.
\<close>

definition py_strip :: "pyval \<Rightarrow> error + string" where
  "py_strip v = (case v of Str s \<Rightarrow> Inr (strip s) | NoneVal \<Rightarrow> Inl AttributeError
                 | StrList _ \<Rightarrow> Inl AttributeError)"

text \<open>\<^verbatim>\<open>row.get(key, '').strip()\<close>, the expression of lines 23 and 24.\<close>

definition field :: "row \<Rightarrow> string \<Rightarrow> error + string" where
  "field r key = py_strip (row_get r key (Str []))"

section \<open>The counting loop\<close>

text \<open>
  The local variables of the loop, lines 13 to 17 of \<^verbatim>\<open>check_csv_urls.py\<close> and lines 9 to
  13 of \<^verbatim>\<open>check_missing_urls.py\<close>. The two scripts have the same loop, line for line.
\<close>

record counts =
  total_rows :: int
  rows_with_skus :: int
  rows_with_urls :: int
  rows_with_both :: int
  missing_url_skus :: "string list"

definition init_counts :: counts where
  "init_counts = \<lparr>total_rows = 0, rows_with_skus = 0, rows_with_urls = 0,
                  rows_with_both = 0, missing_url_skus = []\<rparr>"

text \<open>
  The loop body, lines 21 to 36. A text is true when it is not empty. An exception of
  line 23 or 24 leaves the loop, and the function, at once.
\<close>

definition row_step :: "row \<Rightarrow> counts \<Rightarrow> error + counts" where
  "row_step r c =
     (let c1 = c\<lparr>total_rows := total_rows c + 1\<rparr>
      in case field r ''SKU'' of
           Inl e \<Rightarrow> Inl e
         | Inr sku \<Rightarrow>
             (case field r ''Origin URL'' of
                Inl e \<Rightarrow> Inl e
              | Inr url \<Rightarrow>
                  (let c2 = (if sku \<noteq> [] then c1\<lparr>rows_with_skus := rows_with_skus c1 + 1\<rparr> else c1);
                       c3 = (if url \<noteq> [] then c2\<lparr>rows_with_urls := rows_with_urls c2 + 1\<rparr> else c2);
                       c4 = (if sku \<noteq> [] \<and> url \<noteq> []
                             then c3\<lparr>rows_with_both := rows_with_both c3 + 1\<rparr> else c3);
                       c5 = (if sku \<noteq> [] \<and> \<not> url \<noteq> []
                             then c4\<lparr>missing_url_skus := missing_url_skus c4 @ [sku]\<rparr> else c4)
                   in Inr c5)))"

text \<open>The \<^verbatim>\<open>for row in reader\<close> loop, line 20.\<close>

fun rows_loop :: "row list \<Rightarrow> counts \<Rightarrow> error + counts" where
  "rows_loop [] c = Inr c"
| "rows_loop (r # rs) c = (case row_step r c of Inl e \<Rightarrow> Inl e | Inr c' \<Rightarrow> rows_loop rs c')"

text \<open>
  The operation the specification calls audit: the counters are set up and the loop runs
  over the rows (lines 13 to 36).
\<close>

definition audit :: "row list \<Rightarrow> error + counts" where
  "audit rows = rows_loop rows init_counts"

section \<open>Printing\<close>

text \<open>
  Standard output is the list of the texts printed so far, one entry for each call of
  \<^verbatim>\<open>print\<close>, without the line break that \<^verbatim>\<open>print\<close> puts after it. A line break inside
  a text is the character U+000A.
\<close>

text \<open>\<^verbatim>\<open>str\<close> of an integer, as an f-string formats it: decimal digits, a minus sign first.\<close>

fun str_nat :: "nat \<Rightarrow> string" where
  "str_nat n =
     (if n < 10 then [char_of (48 + n)]
      else str_nat (n div 10) @ [char_of (48 + n mod 10)])"

declare str_nat.simps [simp del]

definition str_int :: "int \<Rightarrow> string" where
  "str_int i = (if i < 0 then CHR ''-'' # str_nat (nat (- i)) else str_nat (nat i))"

text \<open>The five counter lines, lines 39 to 43 (lines 35 to 39 of the single-file script).\<close>

definition counter_lines :: "counts \<Rightarrow> string list" where
  "counter_lines c =
     [''Total rows: '' @ str_int (total_rows c),
      ''Rows with SKUs: '' @ str_int (rows_with_skus c),
      ''Rows with URLs: '' @ str_int (rows_with_urls c),
      ''Rows with both SKU and URL: '' @ str_int (rows_with_both c),
      ''Rows with SKU but missing URL: '' @ str_int (int (length (missing_url_skus c)))]"

text \<open>
  The numbered lines: \<^verbatim>\<open>for i, sku in enumerate(missing_url_skus, 1): print(f"{i}. {sku}")\<close>.
\<close>

definition numbered :: "string list \<Rightarrow> string list" where
  "numbered skus = map (\<lambda>(i, sku). str_int (int i) @ ''. '' @ sku) (List.enumerate 1 skus)"

definition listing_header :: string where
  "listing_header = CHR 0x0A # ''SKUs missing URLs:''"

definition too_many_line :: "nat \<Rightarrow> string" where
  "too_many_line n =
     CHR 0x0A # ''Found '' @ str_int (int n) @ '' SKUs missing URLs (too many to list)''"

text \<open>Lines 45 to 50 of \<^verbatim>\<open>check_csv_urls.py\<close>. A list is true when it is not empty.\<close>

definition listing :: "string list \<Rightarrow> string list" where
  "listing skus =
     (if skus \<noteq> [] \<and> length skus < 10 then listing_header # numbered skus
      else if skus \<noteq> [] then [too_many_line (length skus)]
      else [])"

text \<open>Lines 41 to 44 of \<^verbatim>\<open>check_missing_urls.py\<close>.\<close>

definition listing_all :: "string list \<Rightarrow> string list" where
  "listing_all skus = (if skus \<noteq> [] then listing_header # numbered skus else [])"

section \<open>The two scripts\<close>

text \<open>
  The files the scripts can open: a path has the parsed lines of its file (each line the
  list of its fields), or no file. \<^verbatim>\<open>open\<close> of a path without a file raises
  \<^verbatim>\<open>FileNotFoundError\<close>.
\<close>

type_synonym files = "string \<rightharpoonup> string list list"

text \<open>The dict that \<^verbatim>\<open>analyze_csv\<close> returns, lines 52 to 57.\<close>

record stats =
  total_stat :: int
  with_skus :: int
  with_urls :: int
  with_both :: int

definition stats_of :: "counts \<Rightarrow> stats" where
  "stats_of c = \<lparr>total_stat = total_rows c, with_skus = rows_with_skus c,
                 with_urls = rows_with_urls c, with_both = rows_with_both c\<rparr>"

text \<open>
  \<^verbatim>\<open>analyze_csv(filepath)\<close>, lines 4 to 57: the result, or the exception that ends the
  call, together with standard output after the call.
\<close>

definition analyze_csv :: "files \<Rightarrow> string \<Rightarrow> string list \<Rightarrow> (error + stats) \<times> string list" where
  "analyze_csv fs filepath out =
     (let out1 = out @ [CHR 0x0A # ''Analyzing: '' @ filepath]
      in case fs filepath of
           None \<Rightarrow> (Inl FileNotFoundError, out1)
         | Some parsed \<Rightarrow>
             (case audit (DictReader parsed) of
                Inl e \<Rightarrow> (Inl e, out1)
              | Inr c \<Rightarrow>
                  (Inr (stats_of c), out1 @ counter_lines c @ listing (missing_url_skus c))))"

definition apr_path :: string where
  "apr_path = ''attached_assets/processed_APR Performance BAI 1.csv''"

definition artec_path :: string where
  "artec_path = ''attached_assets/processed_ARTEC BAI 1.csv''"

definition bilstein_path :: string where
  "bilstein_path = ''attached_assets/processed_Bilstein BAI 1.csv''"

text \<open>The grand totals, lines 65 to 68; \<^verbatim>\<open>a + b + c\<close> is \<^verbatim>\<open>(a + b) + c\<close>.\<close>

record summary =
  total_records :: int
  total_with_skus :: int
  total_with_urls :: int
  total_with_both :: int

definition totals :: "stats \<Rightarrow> stats \<Rightarrow> stats \<Rightarrow> summary" where
  "totals apr_stats artec_stats bilstein_stats =
     \<lparr>total_records = total_stat apr_stats + total_stat artec_stats + total_stat bilstein_stats,
      total_with_skus = with_skus apr_stats + with_skus artec_stats + with_skus bilstein_stats,
      total_with_urls = with_urls apr_stats + with_urls artec_stats + with_urls bilstein_stats,
      total_with_both = with_both apr_stats + with_both artec_stats + with_both bilstein_stats\<rparr>"

text \<open>The summary block, lines 70 to 74.\<close>

definition summary_lines :: "summary \<Rightarrow> string list" where
  "summary_lines t =
     [CHR 0x0A # ''=== SUMMARY ==='',
      ''Total records across all CSVs: '' @ str_int (total_records t),
      ''Total records with SKUs: '' @ str_int (total_with_skus t),
      ''Total records with URLs: '' @ str_int (total_with_urls t),
      ''Total records with both SKU and URL: '' @ str_int (total_with_both t)]"

text \<open>
  The module body of \<^verbatim>\<open>check_csv_urls.py\<close>, lines 60 to 74. An exception of one call
  ends the script: the later files are not read and no summary is printed.
\<close>

definition check_csv_urls :: "files \<Rightarrow> string list \<Rightarrow> (error + summary) \<times> string list" where
  "check_csv_urls fs out =
     (case analyze_csv fs apr_path out of
        (Inl e, out1) \<Rightarrow> (Inl e, out1)
      | (Inr apr_stats, out1) \<Rightarrow>
          (case analyze_csv fs artec_path out1 of
             (Inl e, out2) \<Rightarrow> (Inl e, out2)
           | (Inr artec_stats, out2) \<Rightarrow>
               (case analyze_csv fs bilstein_path out2 of
                  (Inl e, out3) \<Rightarrow> (Inl e, out3)
                | (Inr bilstein_stats, out3) \<Rightarrow>
                    (let t = totals apr_stats artec_stats bilstein_stats
                     in (Inr t, out3 @ summary_lines t)))))"

text \<open>
  The module body of \<^verbatim>\<open>check_missing_urls.py\<close>: the same loop over the first of the
  three files, the same five counter lines, and the numbered list of lines 41 to 44.
\<close>

definition check_missing_urls :: "files \<Rightarrow> string list \<Rightarrow> (error + counts) \<times> string list" where
  "check_missing_urls fs out =
     (case fs apr_path of
        None \<Rightarrow> (Inl FileNotFoundError, out)
      | Some parsed \<Rightarrow>
          (case audit (DictReader parsed) of
             Inl e \<Rightarrow> (Inl e, out)
           | Inr c \<Rightarrow> (Inr c, out @ counter_lines c @ listing_all (missing_url_skus c))))"

section \<open>The vocabulary of the specification\<close>

text \<open>
  The specification's Record maps field names to texts. A designated field of a row is
  textual when the row has no entry for it or the entry is a text.
\<close>

definition text_field :: "row \<Rightarrow> string \<Rightarrow> bool" where
  "text_field r key =
     (case r (Some key) of None \<Rightarrow> True | Some (Str _) \<Rightarrow> True | Some _ \<Rightarrow> False)"

definition text_row :: "row \<Rightarrow> bool" where
  "text_row r = (text_field r ''SKU'' \<and> text_field r ''Origin URL'')"

text \<open>
  The trimmed value of a designated field, in the specification's words: the text without
  its leading and trailing whitespace, an absent field counting as the empty text.
\<close>

definition trimmed :: "row \<Rightarrow> string \<Rightarrow> string" where
  "trimmed r key = (case r (Some key) of Some (Str s) \<Rightarrow> strip s | _ \<Rightarrow> [])"

text \<open>
  The per-row rule of the specification (section 4.1), written from its words, to be
  compared with \<open>row_step\<close>.
\<close>

definition spec_row_rule :: "row \<Rightarrow> counts \<Rightarrow> counts" where
  "spec_row_rule r c =
     \<lparr>total_rows = total_rows c + 1,
      rows_with_skus = rows_with_skus c + (if trimmed r ''SKU'' \<noteq> [] then 1 else 0),
      rows_with_urls = rows_with_urls c + (if trimmed r ''Origin URL'' \<noteq> [] then 1 else 0),
      rows_with_both = rows_with_both c +
        (if trimmed r ''SKU'' \<noteq> [] \<and> trimmed r ''Origin URL'' \<noteq> [] then 1 else 0),
      missing_url_skus = missing_url_skus c @
        (if trimmed r ''SKU'' \<noteq> [] \<and> trimmed r ''Origin URL'' = []
         then [trimmed r ''SKU''] else [])\<rparr>"

text \<open>The invariant of the specification's data model (section 3).\<close>

definition audit_inv :: "counts \<Rightarrow> bool" where
  "audit_inv c =
     (rows_with_both c \<le> rows_with_skus c \<and> rows_with_skus c \<le> total_rows c \<and>
      rows_with_both c \<le> rows_with_urls c \<and> rows_with_urls c \<le> total_rows c \<and>
      int (length (missing_url_skus c)) = rows_with_skus c - rows_with_both c)"

text \<open>
  The specification's summarize, written from its words: the elementwise sum of the
  counters of a sequence of results, to be compared with \<open>totals\<close>.
\<close>

definition spec_sum :: "stats \<Rightarrow> stats \<Rightarrow> stats" where
  "spec_sum a b =
     \<lparr>total_stat = total_stat a + total_stat b, with_skus = with_skus a + with_skus b,
      with_urls = with_urls a + with_urls b, with_both = with_both a + with_both b\<rparr>"

definition spec_zero :: stats where
  "spec_zero = \<lparr>total_stat = 0, with_skus = 0, with_urls = 0, with_both = 0\<rparr>"

definition spec_summarize :: "stats list \<Rightarrow> stats" where
  "spec_summarize results = foldl spec_sum spec_zero results"

definition summary_of :: "stats \<Rightarrow> summary" where
  "summary_of s = \<lparr>total_records = total_stat s, total_with_skus = with_skus s,
                   total_with_urls = with_urls s, total_with_both = with_both s\<rparr>"

text \<open>
  The text a designated field of a record holds, an absent field counting as the empty
  text.
\<close>

definition raw_text :: "row \<Rightarrow> string \<Rightarrow> string" where
  "raw_text r key = (case r (Some key) of Some (Str s) \<Rightarrow> s | _ \<Rightarrow> [])"

text \<open>
  Trimming in the specification's words, without reference to \<open>strip\<close>: \<open>t\<close> is \<open>s\<close>
  trimmed when \<open>s\<close> is \<open>t\<close> between leading and trailing whitespace and \<open>t\<close> neither
  starts nor ends with whitespace.
\<close>

definition is_trimmed_of :: "string \<Rightarrow> string \<Rightarrow> bool" where
  "is_trimmed_of t s =
     ((\<exists>a b. s = a @ t @ b \<and> list_all isspace a \<and> list_all isspace b) \<and>
      (t = [] \<or> (\<not> isspace (hd t) \<and> \<not> isspace (last t))))"

section \<open>The variables of a run\<close>

text \<open>
  What a run finds and leaves behind: the reader (the rows it has still to yield), the
  five counting variables, and standard output. In \<^verbatim>\<open>check_missing_urls.py\<close> the reader
  and the counting variables are module globals, which outlast a run of the module body;
  in \<^verbatim>\<open>analyze_csv\<close> they are the local variables of the call. Here a run starts from
  whatever these variables hold and every assignment, and every read, of the source is a
  step on them.
\<close>

record machine =
  reader :: "row list"
  vars :: counts
  stdout :: "string list"

text \<open>
  The loop body on the variables. An exception of line 23 or 24 comes after the increment
  of line 21 and before every other assignment to a counter.
\<close>

definition row_step_m :: "row \<Rightarrow> counts \<Rightarrow> error option \<times> counts" where
  "row_step_m r c =
     (case row_step r c of
        Inl e \<Rightarrow> (Some e, c\<lparr>total_rows := total_rows c + 1\<rparr>)
      | Inr c' \<Rightarrow> (None, c'))"

text \<open>
  The \<^verbatim>\<open>for\<close> loop takes the rows from the reader one by one: it ends with the reader
  used up, or at an exception with the rows after the failing one still in the reader.
\<close>

fun run_loop :: "row list \<Rightarrow> counts \<Rightarrow> error option \<times> row list \<times> counts" where
  "run_loop [] c = (None, [], c)"
| "run_loop (r # rs) c =
     (case row_step_m r c of
        (Some e, c') \<Rightarrow> (Some e, rs, c')
      | (None, c') \<Rightarrow> run_loop rs c')"

text \<open>\<^verbatim>\<open>analyze_csv(filepath)\<close>, lines 5 to 57, on the variables.\<close>

definition analyze_csv_m :: "files \<Rightarrow> string \<Rightarrow> machine \<Rightarrow> (error + stats) \<times> machine" where
  "analyze_csv_m fs filepath m =
     (let m1 = m\<lparr>stdout := stdout m @ [CHR 0x0A # ''Analyzing: '' @ filepath]\<rparr>
      in case fs filepath of
           None \<Rightarrow> (Inl FileNotFoundError, m1)
         | Some parsed \<Rightarrow>
             (let m2 = m1\<lparr>reader := DictReader parsed\<rparr>;
                  m3 = m2\<lparr>vars := init_counts\<rparr>
              in case run_loop (reader m3) (vars m3) of
                   (Some e, rest, c) \<Rightarrow> (Inl e, m3\<lparr>reader := rest, vars := c\<rparr>)
                 | (None, rest, c) \<Rightarrow>
                     (let m4 = m3\<lparr>reader := rest, vars := c\<rparr>
                      in (Inr (stats_of (vars m4)),
                          m4\<lparr>stdout := stdout m4 @ counter_lines (vars m4) @
                                         listing (missing_url_skus (vars m4))\<rparr>))))"

text \<open>The module body of \<^verbatim>\<open>check_missing_urls.py\<close> on the variables.\<close>

definition check_missing_urls_m :: "files \<Rightarrow> machine \<Rightarrow> error option \<times> machine" where
  "check_missing_urls_m fs m =
     (case fs apr_path of
        None \<Rightarrow> (Some FileNotFoundError, m)
      | Some parsed \<Rightarrow>
          (let m1 = m\<lparr>reader := DictReader parsed\<rparr>;
               m2 = m1\<lparr>vars := init_counts\<rparr>
           in case run_loop (reader m2) (vars m2) of
                (Some e, rest, c) \<Rightarrow> (Some e, m2\<lparr>reader := rest, vars := c\<rparr>)
              | (None, rest, c) \<Rightarrow>
                  (let m3 = m2\<lparr>reader := rest, vars := c\<rparr>
                   in (None,
                       m3\<lparr>stdout := stdout m3 @ counter_lines (vars m3) @
                                      listing_all (missing_url_skus (vars m3))\<rparr>))))"

section \<open>Properties of the counting loop\<close>

lemma strip_Nil: "strip [] = []"
  by (simp add: strip_def)

lemma field_text: "text_field r key \<Longrightarrow> field r key = Inr (trimmed r key)"
  by (auto simp: text_field_def field_def trimmed_def row_get_def py_strip_def strip_Nil
      split: option.splits pyval.splits)

lemma row_step_text: "text_row r \<Longrightarrow> row_step r c = Inr (spec_row_rule r c)"
  by (simp add: text_row_def row_step_def field_text spec_row_rule_def Let_def)

lemma rows_loop_append:
  "rows_loop (xs @ ys) c =
     (case rows_loop xs c of Inl e \<Rightarrow> Inl e | Inr c' \<Rightarrow> rows_loop ys c')"
  by (induction xs arbitrary: c) (auto split: sum.splits)

lemma rows_loop_text:
  "list_all text_row rows \<Longrightarrow> rows_loop rows c = Inr (fold spec_row_rule rows c)"
  by (induction rows arbitrary: c) (auto simp: row_step_text)

lemma row_step_inv: "audit_inv c \<Longrightarrow> row_step r c = Inr c' \<Longrightarrow> audit_inv c'"
  by (auto simp: row_step_def audit_inv_def Let_def split: sum.splits if_splits)

lemma rows_loop_inv: "audit_inv c \<Longrightarrow> rows_loop rows c = Inr c' \<Longrightarrow> audit_inv c'"
proof (induction rows arbitrary: c)
  case Nil
  then show ?case by simp
next
  case (Cons r rows)
  then show ?case by (auto split: sum.splits dest: row_step_inv)
qed

lemma missing_fold:
  "missing_url_skus (fold spec_row_rule rows c) =
     missing_url_skus c @
     map (\<lambda>r. trimmed r ''SKU'')
       (filter (\<lambda>r. trimmed r ''SKU'' \<noteq> [] \<and> trimmed r ''Origin URL'' = []) rows)"
  by (induction rows arbitrary: c) (auto simp: spec_row_rule_def)

lemma count_list_map_filter:
  "count_list (map f (filter P xs)) s = length (filter (\<lambda>x. P x \<and> f x = s) xs)"
  by (induction xs) auto

lemma field_upd_other: "k \<noteq> Some key \<Longrightarrow> field (r(k := v)) key = field r key"
  by (simp add: field_def row_get_def)

lemma row_step_cong:
  "field r ''SKU'' = field r' ''SKU'' \<Longrightarrow> field r ''Origin URL'' = field r' ''Origin URL''
   \<Longrightarrow> row_step r c = row_step r' c"
  by (simp add: row_step_def Let_def split: sum.splits)

lemma rows_loop_cong:
  "list_all2 (\<lambda>r r'. field r ''SKU'' = field r' ''SKU'' \<and>
      field r ''Origin URL'' = field r' ''Origin URL'') rows rows'
   \<Longrightarrow> rows_loop rows c = rows_loop rows' c"
proof (induction rows rows' arbitrary: c rule: list_all2_induct)
  case Nil
  show ?case by simp
next
  case (Cons r rows r' rows')
  from Cons.hyps(1) have "row_step r c = row_step r' c"
    by (intro row_step_cong) simp_all
  with Cons.IH show ?case by (simp split: sum.splits)
qed

lemma last_dropWhile: "dropWhile P xs \<noteq> [] \<Longrightarrow> last (dropWhile P xs) = last xs"
  by (induction xs) (auto split: if_splits)

lemma strip_decompose:
  "\<exists>a b. s = a @ strip s @ b \<and> list_all isspace a \<and> list_all isspace b"
proof -
  let ?d = "dropWhile isspace s"
  let ?a = "takeWhile isspace s"
  let ?b = "rev (takeWhile isspace (rev ?d))"
  have "rev (takeWhile isspace (rev ?d) @ dropWhile isspace (rev ?d)) = rev (rev ?d)"
    by (simp only: takeWhile_dropWhile_id)
  then have d: "?d = strip s @ ?b"
    by (simp only: rev_append rev_rev_ident strip_def)
  have "s = ?a @ ?d" by simp
  with d have "s = ?a @ strip s @ ?b" by simp
  moreover have "list_all isspace ?a"
    by (auto simp: list_all_iff dest: set_takeWhileD)
  moreover have "list_all isspace ?b"
    by (auto simp: list_all_iff dest: set_takeWhileD)
  ultimately show ?thesis by blast
qed

lemma strip_ends:
  assumes "strip s \<noteq> []"
  shows "\<not> isspace (hd (strip s)) \<and> \<not> isspace (last (strip s))"
proof -
  let ?d = "dropWhile isspace s"
  let ?e = "dropWhile isspace (rev ?d)"
  from assms have e: "?e \<noteq> []" by (simp add: strip_def)
  have d: "?d \<noteq> []"
  proof
    assume "?d = []"
    then have "?e = []" by (simp only: rev.simps dropWhile.simps)
    with e show False by (rule notE)
  qed
  have "last (strip s) = hd ?e" using e by (simp add: strip_def last_rev)
  moreover have "\<not> isspace (hd ?e)" using e by (rule hd_dropWhile)
  moreover have "hd (strip s) = last ?e" using e by (simp add: strip_def hd_rev)
  moreover have "last ?e = last (rev ?d)" using e by (rule last_dropWhile)
  moreover have "last (rev ?d) = hd ?d" using d by (simp add: last_rev)
  moreover have "\<not> isspace (hd ?d)" using d by (rule hd_dropWhile)
  ultimately show ?thesis by simp
qed

lemma strip_is_trimmed: "is_trimmed_of (strip s) s"
  unfolding is_trimmed_of_def using strip_decompose [of s] strip_ends [of s] by blast

lemma is_trimmed_unique:
  assumes "is_trimmed_of t s"
  shows "t = strip s"
proof -
  from assms obtain a b where s: "s = a @ t @ b"
    and a: "list_all isspace a" and b: "list_all isspace b"
    and t: "t = [] \<or> (\<not> isspace (hd t) \<and> \<not> isspace (last t))"
    unfolding is_trimmed_of_def by blast
  from a have da: "dropWhile isspace (a @ t @ b) = dropWhile isspace (t @ b)"
    by (simp add: list_all_iff dropWhile_append2)
  show ?thesis
  proof (cases "t = []")
    case True
    from b have "dropWhile isspace b = []" by (simp add: list_all_iff)
    with s da True have "dropWhile isspace s = []" by simp
    then have "strip s = []" by (simp only: strip_def rev.simps dropWhile.simps)
    with True show ?thesis by simp
  next
    case False
    with t have h: "\<not> isspace (hd t)" and l: "\<not> isspace (last t)" by simp_all
    from False h have "dropWhile isspace (t @ b) = t @ b"
      by (cases t) simp_all
    with s da have d: "dropWhile isspace s = t @ b" by simp
    from b have "dropWhile isspace (rev b @ rev t) = dropWhile isspace (rev t)"
      by (intro dropWhile_append2) (simp add: list_all_iff)
    moreover from False l have "dropWhile isspace (rev t) = rev t"
      by (cases "rev t") (auto simp: last_rev [symmetric] simp del: last_rev)
    ultimately show ?thesis using d by (simp add: strip_def)
  qed
qed

lemma trimmed_raw_text: "trimmed r key = strip (raw_text r key)"
  by (simp add: trimmed_def raw_text_def strip_Nil split: option.splits pyval.splits)

text \<open>
  C1. For every sequence of records (rows whose two designated fields are absent or hold
  a text), audit computes the counters by the per-row rule. Without rows every counter is
  0 and the list is empty. A further row is counted on the trimmed values of its two
  fields, the texts left when the leading and trailing whitespace is removed (an absent
  field has the empty text): it adds 1 to the total, 1 to each presence counter whose
  trimmed field (or fields) is not empty, and its trimmed identifier to the list when the
  identifier is not empty and the link is. On the four rows of the scenario the result is
  total 4, with identifier 2, with link 2, with both 1, missing B; on rows whose fields
  carry blanks and tabs the blanks and tabs do not count.
\<close>

theorem audit_per_row_rule:
  assumes "list_all text_row rows" and "text_row r"
  shows "audit [] = Inr \<lparr>total_rows = 0, rows_with_skus = 0, rows_with_urls = 0,
                          rows_with_both = 0, missing_url_skus = []\<rparr> \<and>
         (\<exists>c sku url.
            audit rows = Inr c \<and>
            is_trimmed_of sku (raw_text r ''SKU'') \<and>
            is_trimmed_of url (raw_text r ''Origin URL'') \<and>
            audit (rows @ [r]) =
              Inr \<lparr>total_rows = total_rows c + 1,
                   rows_with_skus = rows_with_skus c + (if sku \<noteq> [] then 1 else 0),
                   rows_with_urls = rows_with_urls c + (if url \<noteq> [] then 1 else 0),
                   rows_with_both = rows_with_both c +
                     (if sku \<noteq> [] \<and> url \<noteq> [] then 1 else 0),
                   missing_url_skus = missing_url_skus c @
                     (if sku \<noteq> [] \<and> url = [] then [sku] else [])\<rparr>) \<and>
         audit [[Some ''SKU'' \<mapsto> Str ''A'', Some ''Origin URL'' \<mapsto> Str ''x''],
                [Some ''SKU'' \<mapsto> Str ''B'', Some ''Origin URL'' \<mapsto> Str ''''],
                [Some ''SKU'' \<mapsto> Str '''', Some ''Origin URL'' \<mapsto> Str ''y''],
                [Some ''SKU'' \<mapsto> Str '''', Some ''Origin URL'' \<mapsto> Str '''']]
           = Inr \<lparr>total_rows = 4, rows_with_skus = 2, rows_with_urls = 2,
                  rows_with_both = 1, missing_url_skus = [''B'']\<rparr> \<and>
         audit [[Some ''SKU'' \<mapsto> Str ''  B '', Some ''Origin URL'' \<mapsto> Str [CHR '' '', CHR 0x09]],
                [Some ''SKU'' \<mapsto> Str '' '', Some ''Origin URL'' \<mapsto> Str ''y ''],
                [Some ''SKU'' \<mapsto> Str [CHR 0x09, CHR ''A''], Some ''Origin URL'' \<mapsto> Str ''x y '']]
           = Inr \<lparr>total_rows = 3, rows_with_skus = 2, rows_with_urls = 2,
                  rows_with_both = 1, missing_url_skus = [''B'']\<rparr>"
proof -
  let ?c = "fold spec_row_rule rows init_counts"
  let ?sku = "strip (raw_text r ''SKU'')"
  let ?url = "strip (raw_text r ''Origin URL'')"
  have empty: "audit [] = Inr \<lparr>total_rows = 0, rows_with_skus = 0, rows_with_urls = 0,
                                rows_with_both = 0, missing_url_skus = []\<rparr>"
    by (simp add: audit_def init_counts_def)
  have before: "audit rows = Inr ?c"
    using assms(1) by (simp add: audit_def rows_loop_text)
  have "audit (rows @ [r]) = Inr (spec_row_rule r ?c)"
    using assms by (simp add: audit_def rows_loop_text)
  then have after: "audit (rows @ [r]) =
      Inr \<lparr>total_rows = total_rows ?c + 1,
           rows_with_skus = rows_with_skus ?c + (if ?sku \<noteq> [] then 1 else 0),
           rows_with_urls = rows_with_urls ?c + (if ?url \<noteq> [] then 1 else 0),
           rows_with_both = rows_with_both ?c +
             (if ?sku \<noteq> [] \<and> ?url \<noteq> [] then 1 else 0),
           missing_url_skus = missing_url_skus ?c @
             (if ?sku \<noteq> [] \<and> ?url = [] then [?sku] else [])\<rparr>"
    by (simp only: spec_row_rule_def trimmed_raw_text)
  have t1: "is_trimmed_of ?sku (raw_text r ''SKU'')" by (rule strip_is_trimmed)
  have t2: "is_trimmed_of ?url (raw_text r ''Origin URL'')" by (rule strip_is_trimmed)
  have step: "\<exists>c sku url.
            audit rows = Inr c \<and>
            is_trimmed_of sku (raw_text r ''SKU'') \<and>
            is_trimmed_of url (raw_text r ''Origin URL'') \<and>
            audit (rows @ [r]) =
              Inr \<lparr>total_rows = total_rows c + 1,
                   rows_with_skus = rows_with_skus c + (if sku \<noteq> [] then 1 else 0),
                   rows_with_urls = rows_with_urls c + (if url \<noteq> [] then 1 else 0),
                   rows_with_both = rows_with_both c +
                     (if sku \<noteq> [] \<and> url \<noteq> [] then 1 else 0),
                   missing_url_skus = missing_url_skus c @
                     (if sku \<noteq> [] \<and> url = [] then [sku] else [])\<rparr>"
    using before t1 t2 after by (intro exI conjI)
  have scenario:
    "audit [[Some ''SKU'' \<mapsto> Str ''A'', Some ''Origin URL'' \<mapsto> Str ''x''],
            [Some ''SKU'' \<mapsto> Str ''B'', Some ''Origin URL'' \<mapsto> Str ''''],
            [Some ''SKU'' \<mapsto> Str '''', Some ''Origin URL'' \<mapsto> Str ''y''],
            [Some ''SKU'' \<mapsto> Str '''', Some ''Origin URL'' \<mapsto> Str '''']]
       = Inr \<lparr>total_rows = 4, rows_with_skus = 2, rows_with_urls = 2,
              rows_with_both = 1, missing_url_skus = [''B'']\<rparr>"
    by code_simp
  have blanks:
    "audit [[Some ''SKU'' \<mapsto> Str ''  B '', Some ''Origin URL'' \<mapsto> Str [CHR '' '', CHR 0x09]],
            [Some ''SKU'' \<mapsto> Str '' '', Some ''Origin URL'' \<mapsto> Str ''y ''],
            [Some ''SKU'' \<mapsto> Str [CHR 0x09, CHR ''A''], Some ''Origin URL'' \<mapsto> Str ''x y '']]
       = Inr \<lparr>total_rows = 3, rows_with_skus = 2, rows_with_urls = 2,
              rows_with_both = 1, missing_url_skus = [''B'']\<rparr>"
    by code_simp
  from empty step scenario blanks show ?thesis by (intro conjI)
qed

theorem audit_per_row_rule_witness:
  "list_all text_row [[Some ''SKU'' \<mapsto> Str '' A '', Some ''Origin URL'' \<mapsto> Str ''x'']] \<and>
   text_row [Some ''SKU'' \<mapsto> Str ''  B '', Some ''Origin URL'' \<mapsto> Str '' '', Some ''Name'' \<mapsto> NoneVal] \<and>
   is_trimmed_of ''B'' ''  B '' \<and> is_trimmed_of [] '' '' \<and>
   audit [[Some ''SKU'' \<mapsto> Str '' A '', Some ''Origin URL'' \<mapsto> Str ''x'']]
     = Inr \<lparr>total_rows = 1, rows_with_skus = 1, rows_with_urls = 1,
            rows_with_both = 1, missing_url_skus = []\<rparr> \<and>
   audit [[Some ''SKU'' \<mapsto> Str '' A '', Some ''Origin URL'' \<mapsto> Str ''x''],
          [Some ''SKU'' \<mapsto> Str ''  B '', Some ''Origin URL'' \<mapsto> Str '' '', Some ''Name'' \<mapsto> NoneVal]]
     = Inr \<lparr>total_rows = 2, rows_with_skus = 2, rows_with_urls = 1,
            rows_with_both = 1, missing_url_skus = [''B'']\<rparr>"
proof -
  let ?r1 = "[Some ''SKU'' \<mapsto> Str '' A '', Some ''Origin URL'' \<mapsto> Str ''x'']"
  let ?r2 = "[Some ''SKU'' \<mapsto> Str ''  B '', Some ''Origin URL'' \<mapsto> Str '' '',
              Some ''Name'' \<mapsto> NoneVal]"
  have h1: "list_all text_row [?r1]"
    by (simp add: text_row_def text_field_def)
  have h2: "text_row ?r2"
    by (simp add: text_row_def text_field_def)
  have run: "audit [?r1] = Inr \<lparr>total_rows = 1, rows_with_skus = 1, rows_with_urls = 1,
            rows_with_both = 1, missing_url_skus = []\<rparr>"
    by code_simp
  have raw: "raw_text ?r2 ''SKU'' = ''  B ''" "raw_text ?r2 ''Origin URL'' = '' ''"
    by (simp_all add: raw_text_def)
  have st: "strip ''  B '' = ''B''" "strip '' '' = []"
    by code_simp+
  from audit_per_row_rule [OF h1 h2]
  obtain c sku url where c: "audit [?r1] = Inr c"
    and sku: "is_trimmed_of sku (raw_text ?r2 ''SKU'')"
    and url: "is_trimmed_of url (raw_text ?r2 ''Origin URL'')"
    and res: "audit ([?r1] @ [?r2]) =
              Inr \<lparr>total_rows = total_rows c + 1,
                   rows_with_skus = rows_with_skus c + (if sku \<noteq> [] then 1 else 0),
                   rows_with_urls = rows_with_urls c + (if url \<noteq> [] then 1 else 0),
                   rows_with_both = rows_with_both c +
                     (if sku \<noteq> [] \<and> url \<noteq> [] then 1 else 0),
                   missing_url_skus = missing_url_skus c @
                     (if sku \<noteq> [] \<and> url = [] then [sku] else [])\<rparr>"
    by blast
  from sku have sku_eq: "sku = ''B''"
    unfolding raw(1) using is_trimmed_unique st(1) by simp
  from url have url_eq: "url = []"
    unfolding raw(2) using is_trimmed_unique st(2) by simp
  from sku sku_eq have t1: "is_trimmed_of ''B'' ''  B ''" unfolding raw(1) by simp
  from url url_eq have t2: "is_trimmed_of [] '' ''" unfolding raw(2) by simp
  from c run have c_eq: "c = \<lparr>total_rows = 1, rows_with_skus = 1, rows_with_urls = 1,
            rows_with_both = 1, missing_url_skus = []\<rparr>" by simp
  from res have final: "audit [?r1, ?r2] = Inr \<lparr>total_rows = 2, rows_with_skus = 2,
      rows_with_urls = 1, rows_with_both = 1, missing_url_skus = [''B'']\<rparr>"
    unfolding c_eq sku_eq url_eq by simp
  from h1 h2 t1 t2 run final show ?thesis by (intro conjI)
qed

text \<open>
  C2. Whenever audit returns a result, the result satisfies with both \<le> with identifier
  \<le> total, with both \<le> with link \<le> total, and the length of the list of missing
  identifiers is with identifier minus with both; and audit returns a result for every
  sequence of records.
\<close>

theorem audit_invariant:
  "(\<forall>c. audit rows = Inr c \<longrightarrow>
      rows_with_both c \<le> rows_with_skus c \<and> rows_with_skus c \<le> total_rows c \<and>
      rows_with_both c \<le> rows_with_urls c \<and> rows_with_urls c \<le> total_rows c \<and>
      int (length (missing_url_skus c)) = rows_with_skus c - rows_with_both c) \<and>
   (list_all text_row rows \<longrightarrow> (\<exists>c. audit rows = Inr c))"
proof -
  have "audit_inv init_counts" by (simp add: audit_inv_def init_counts_def)
  then have "\<forall>c. audit rows = Inr c \<longrightarrow> audit_inv c"
    unfolding audit_def using rows_loop_inv by blast
  moreover have "list_all text_row rows \<longrightarrow> (\<exists>c. audit rows = Inr c)"
    by (simp add: audit_def rows_loop_text)
  ultimately show ?thesis by (simp add: audit_inv_def)
qed

theorem audit_invariant_witness:
  "list_all text_row [[Some ''SKU'' \<mapsto> Str ''A''], [Some ''Origin URL'' \<mapsto> Str ''u''], Map.empty] \<and>
   (\<exists>c. audit [[Some ''SKU'' \<mapsto> Str ''A''], [Some ''Origin URL'' \<mapsto> Str ''u''], Map.empty] = Inr c \<and>
        rows_with_both c \<le> rows_with_skus c \<and> rows_with_skus c \<le> total_rows c \<and>
        rows_with_both c \<le> rows_with_urls c \<and> rows_with_urls c \<le> total_rows c \<and>
        int (length (missing_url_skus c)) = rows_with_skus c - rows_with_both c \<and>
        total_rows c = 3 \<and> missing_url_skus c = [''A''])"
proof -
  have h: "list_all text_row [[Some ''SKU'' \<mapsto> Str ''A''], [Some ''Origin URL'' \<mapsto> Str ''u''], Map.empty]"
    by (simp add: text_row_def text_field_def)
  have run: "audit [[Some ''SKU'' \<mapsto> Str ''A''], [Some ''Origin URL'' \<mapsto> Str ''u''], Map.empty]
     = Inr \<lparr>total_rows = 3, rows_with_skus = 1, rows_with_urls = 1,
            rows_with_both = 0, missing_url_skus = [''A'']\<rparr>"
    by code_simp
  from audit_invariant [of "[[Some ''SKU'' \<mapsto> Str ''A''], [Some ''Origin URL'' \<mapsto> Str ''u''], Map.empty]"]
  show ?thesis using h run by simp
qed

text \<open>
  C3. The file with the header SKU, Origin URL and the one data line A has a row with a
  wrong column count. The reader stores \<^verbatim>\<open>None\<close> for its Origin URL, the default of
  \<^verbatim>\<open>row.get\<close> is not taken, and \<^verbatim>\<open>.strip()\<close> raises \<^verbatim>\<open>AttributeError\<close>: the row is
  not processed without exception.
\<close>

theorem audit_short_row_raises:
  "audit (DictReader [[''SKU'', ''Origin URL''], [''A'']]) = Inl AttributeError"
  by code_simp

text \<open>
  C9. On a sequence of records the list of missing identifiers holds, in the order of the
  rows, the trimmed identifier of each row that has an identifier and no link, once for
  each such row: an identifier that k such rows carry stands k times in the list, and the
  length of the list is the number of such rows.
\<close>

theorem missing_url_skus_per_row:
  assumes "list_all text_row rows"
  shows "\<exists>c. audit rows = Inr c \<and>
           missing_url_skus c =
             map (\<lambda>r. trimmed r ''SKU'')
               (filter (\<lambda>r. trimmed r ''SKU'' \<noteq> [] \<and> trimmed r ''Origin URL'' = []) rows) \<and>
           count_list (missing_url_skus c) s =
             length (filter (\<lambda>r. (trimmed r ''SKU'' \<noteq> [] \<and> trimmed r ''Origin URL'' = []) \<and>
                                 trimmed r ''SKU'' = s) rows) \<and>
           length (missing_url_skus c) =
             length (filter (\<lambda>r. trimmed r ''SKU'' \<noteq> [] \<and> trimmed r ''Origin URL'' = []) rows)"
proof -
  let ?c = "fold spec_row_rule rows init_counts"
  have run: "audit rows = Inr ?c"
    using assms by (simp add: audit_def rows_loop_text)
  have lst: "missing_url_skus ?c =
      map (\<lambda>r. trimmed r ''SKU'')
        (filter (\<lambda>r. trimmed r ''SKU'' \<noteq> [] \<and> trimmed r ''Origin URL'' = []) rows)"
    by (simp add: missing_fold init_counts_def)
  have cnt: "count_list (missing_url_skus ?c) s =
      length (filter (\<lambda>r. (trimmed r ''SKU'' \<noteq> [] \<and> trimmed r ''Origin URL'' = []) \<and>
                          trimmed r ''SKU'' = s) rows)"
    unfolding lst by (rule count_list_map_filter)
  have len: "length (missing_url_skus ?c) =
      length (filter (\<lambda>r. trimmed r ''SKU'' \<noteq> [] \<and> trimmed r ''Origin URL'' = []) rows)"
    unfolding lst by simp
  from run lst cnt len show ?thesis by blast
qed

theorem missing_url_skus_per_row_witness:
  "list_all text_row
     [[Some ''SKU'' \<mapsto> Str ''B''], [Some ''SKU'' \<mapsto> Str ''A''],
      [Some ''SKU'' \<mapsto> Str ''C'', Some ''Origin URL'' \<mapsto> Str ''u''],
      [Some ''SKU'' \<mapsto> Str '' B '', Some ''Origin URL'' \<mapsto> Str '' '']] \<and>
   (\<exists>c. audit
          [[Some ''SKU'' \<mapsto> Str ''B''], [Some ''SKU'' \<mapsto> Str ''A''],
           [Some ''SKU'' \<mapsto> Str ''C'', Some ''Origin URL'' \<mapsto> Str ''u''],
           [Some ''SKU'' \<mapsto> Str '' B '', Some ''Origin URL'' \<mapsto> Str '' '']] = Inr c \<and>
        missing_url_skus c = [''B'', ''A'', ''B''] \<and>
        count_list (missing_url_skus c) ''B'' = 2)"
proof -
  let ?rows = "[[Some ''SKU'' \<mapsto> Str ''B''], [Some ''SKU'' \<mapsto> Str ''A''],
      [Some ''SKU'' \<mapsto> Str ''C'', Some ''Origin URL'' \<mapsto> Str ''u''],
      [Some ''SKU'' \<mapsto> Str '' B '', Some ''Origin URL'' \<mapsto> Str '' '']]"
  have h: "list_all text_row ?rows"
    by (simp add: text_row_def text_field_def)
  have run: "audit ?rows = Inr \<lparr>total_rows = 4, rows_with_skus = 4, rows_with_urls = 1,
      rows_with_both = 1, missing_url_skus = [''B'', ''A'', ''B'']\<rparr>"
    by code_simp
  from missing_url_skus_per_row [OF h, of "''B''"]
  obtain c where c: "audit ?rows = Inr c"
    and cnt: "count_list (missing_url_skus c) ''B'' =
      length (filter (\<lambda>r. (trimmed r ''SKU'' \<noteq> [] \<and> trimmed r ''Origin URL'' = []) \<and>
                          trimmed r ''SKU'' = ''B'') ?rows)"
    by blast
  from c run have "c = \<lparr>total_rows = 4, rows_with_skus = 4, rows_with_urls = 1,
      rows_with_both = 1, missing_url_skus = [''B'', ''A'', ''B'']\<rparr>"
    by simp
  then have m: "missing_url_skus c = [''B'', ''A'', ''B'']" by simp
  then have "count_list (missing_url_skus c) ''B'' = 2" by simp
  with h c m show ?thesis by blast
qed

text \<open>
  C10. The result of audit depends on the rows only through the two expressions
  \<^verbatim>\<open>row.get('SKU', '').strip()\<close> and \<^verbatim>\<open>row.get('Origin URL', '').strip()\<close>: two sequences
  of equal length whose rows agree, row by row, on both (the same trimmed text, or the
  same exception) have the same result; and changing any other field of the rows leaves
  the result as it is.
\<close>

theorem audit_noninterference:
  "(list_all2 (\<lambda>r r'. field r ''SKU'' = field r' ''SKU'' \<and>
                       field r ''Origin URL'' = field r' ''Origin URL'') rows rows'
      \<longrightarrow> audit rows = audit rows') \<and>
   (k \<noteq> Some ''SKU'' \<and> k \<noteq> Some ''Origin URL''
      \<longrightarrow> audit (map (\<lambda>r. r(k := v r)) rows) = audit rows)"
proof (intro conjI impI)
  assume "list_all2 (\<lambda>r r'. field r ''SKU'' = field r' ''SKU'' \<and>
                       field r ''Origin URL'' = field r' ''Origin URL'') rows rows'"
  then show "audit rows = audit rows'"
    unfolding audit_def by (rule rows_loop_cong)
next
  assume k: "k \<noteq> Some ''SKU'' \<and> k \<noteq> Some ''Origin URL''"
  have "list_all2 (\<lambda>r r'. field r ''SKU'' = field r' ''SKU'' \<and>
                       field r ''Origin URL'' = field r' ''Origin URL'')
          (map (\<lambda>r. r(k := v r)) rows) rows"
    using k by (simp add: list_all2_map1 field_upd_other list_all2_same)
  then show "audit (map (\<lambda>r. r(k := v r)) rows) = audit rows"
    unfolding audit_def by (rule rows_loop_cong)
qed

theorem audit_noninterference_witness:
  "list_all2 (\<lambda>r r'. field r ''SKU'' = field r' ''SKU'' \<and>
                      field r ''Origin URL'' = field r' ''Origin URL'')
     [[Some ''SKU'' \<mapsto> Str '' A'', Some ''Name'' \<mapsto> Str ''n1'']]
     [[Some ''SKU'' \<mapsto> Str ''A '', Some ''Origin URL'' \<mapsto> Str '' '', Some ''Name'' \<mapsto> Str ''n2'']] \<and>
   audit [[Some ''SKU'' \<mapsto> Str '' A'', Some ''Name'' \<mapsto> Str ''n1'']] =
   audit [[Some ''SKU'' \<mapsto> Str ''A '', Some ''Origin URL'' \<mapsto> Str '' '', Some ''Name'' \<mapsto> Str ''n2'']]"
proof -
  have h: "list_all2 (\<lambda>r r'. field r ''SKU'' = field r' ''SKU'' \<and>
                      field r ''Origin URL'' = field r' ''Origin URL'')
     [[Some ''SKU'' \<mapsto> Str '' A'', Some ''Name'' \<mapsto> Str ''n1'']]
     [[Some ''SKU'' \<mapsto> Str ''A '', Some ''Origin URL'' \<mapsto> Str '' '', Some ''Name'' \<mapsto> Str ''n2'']]"
    by (simp add: field_def row_get_def py_strip_def strip_def isspace_def)
  from audit_noninterference
    [of "[[Some ''SKU'' \<mapsto> Str '' A'', Some ''Name'' \<mapsto> Str ''n1'']]"
        "[[Some ''SKU'' \<mapsto> Str ''A '', Some ''Origin URL'' \<mapsto> Str '' '', Some ''Name'' \<mapsto> Str ''n2'']]"]
  show ?thesis using h by blast
qed

section \<open>Properties of the reports and of the grand totals\<close>

lemma numbered_nth:
  "numbered m = map (\<lambda>i. str_int (int (Suc i)) @ ''. '' @ m ! i) [0..<length m]"
  by (rule nth_equalityI) (simp_all add: numbered_def nth_enumerate_eq)

text \<open>
  C4. The report of \<^verbatim>\<open>analyze_csv\<close> (\<^verbatim>\<open>check_csv_urls.py\<close>) follows the threshold rule:
  after the five counter lines it prints nothing when no identifier is missing, the
  heading and one line \<open>i. identifier\<close> for each missing identifier when there are 1 to
  9, and the single line with the count when there are 10 or more. The script
  \<^verbatim>\<open>check_missing_urls.py\<close> has no threshold: it prints nothing when no identifier is
  missing and the heading and the numbered lines otherwise, however many there are.
\<close>

theorem listing_threshold_rule:
  assumes "fs filepath = Some parsed" and "audit (DictReader parsed) = Inr c"
  shows "snd (analyze_csv fs filepath out) =
           out @ [CHR 0x0A # ''Analyzing: '' @ filepath] @ counter_lines c @
           (if length (missing_url_skus c) = 0 then []
            else if length (missing_url_skus c) < 10
            then (CHR 0x0A # ''SKUs missing URLs:'') #
                 map (\<lambda>i. str_int (int (Suc i)) @ ''. '' @ missing_url_skus c ! i)
                   [0..<length (missing_url_skus c)]
            else [CHR 0x0A # ''Found '' @ str_int (int (length (missing_url_skus c))) @
                  '' SKUs missing URLs (too many to list)'']) \<and>
         (filepath = apr_path \<longrightarrow>
            snd (check_missing_urls fs out) =
              out @ counter_lines c @
              (if length (missing_url_skus c) = 0 then []
               else (CHR 0x0A # ''SKUs missing URLs:'') #
                    map (\<lambda>i. str_int (int (Suc i)) @ ''. '' @ missing_url_skus c ! i)
                      [0..<length (missing_url_skus c)]))"
proof (intro conjI impI)
  show "snd (analyze_csv fs filepath out) =
           out @ [CHR 0x0A # ''Analyzing: '' @ filepath] @ counter_lines c @
           (if length (missing_url_skus c) = 0 then []
            else if length (missing_url_skus c) < 10
            then (CHR 0x0A # ''SKUs missing URLs:'') #
                 map (\<lambda>i. str_int (int (Suc i)) @ ''. '' @ missing_url_skus c ! i)
                   [0..<length (missing_url_skus c)]
            else [CHR 0x0A # ''Found '' @ str_int (int (length (missing_url_skus c))) @
                  '' SKUs missing URLs (too many to list)''])"
    using assms
    by (simp add: analyze_csv_def listing_def listing_header_def too_many_line_def
        numbered_nth Let_def)
next
  assume "filepath = apr_path"
  with assms show "snd (check_missing_urls fs out) =
              out @ counter_lines c @
              (if length (missing_url_skus c) = 0 then []
               else (CHR 0x0A # ''SKUs missing URLs:'') #
                    map (\<lambda>i. str_int (int (Suc i)) @ ''. '' @ missing_url_skus c ! i)
                      [0..<length (missing_url_skus c)])"
    by (simp add: check_missing_urls_def listing_all_def listing_header_def numbered_nth)
qed

theorem listing_threshold_rule_witness:
  "[apr_path \<mapsto> [[''SKU'', ''Origin URL''], [''A'', ''''], [''B'', ''u''], [''C'', '' '']]] apr_path =
     Some [[''SKU'', ''Origin URL''], [''A'', ''''], [''B'', ''u''], [''C'', '' '']] \<and>
   audit (DictReader [[''SKU'', ''Origin URL''], [''A'', ''''], [''B'', ''u''], [''C'', '' '']]) =
     Inr \<lparr>total_rows = 3, rows_with_skus = 3, rows_with_urls = 1, rows_with_both = 1,
          missing_url_skus = [''A'', ''C'']\<rparr> \<and>
   snd (analyze_csv
         [apr_path \<mapsto> [[''SKU'', ''Origin URL''], [''A'', ''''], [''B'', ''u''], [''C'', '' '']]]
         apr_path []) =
     [CHR 0x0A # ''Analyzing: attached_assets/processed_APR Performance BAI 1.csv'',
      ''Total rows: 3'', ''Rows with SKUs: 3'', ''Rows with URLs: 1'',
      ''Rows with both SKU and URL: 1'', ''Rows with SKU but missing URL: 2'',
      CHR 0x0A # ''SKUs missing URLs:'', ''1. A'', ''2. C''] \<and>
   snd (check_missing_urls
         [apr_path \<mapsto> [[''SKU'', ''Origin URL''], [''A'', ''''], [''B'', ''u''], [''C'', '' '']]] []) =
     [''Total rows: 3'', ''Rows with SKUs: 3'', ''Rows with URLs: 1'',
      ''Rows with both SKU and URL: 1'', ''Rows with SKU but missing URL: 2'',
      CHR 0x0A # ''SKUs missing URLs:'', ''1. A'', ''2. C'']"
proof -
  let ?p = "[[''SKU'', ''Origin URL''], [''A'', ''''], [''B'', ''u''], [''C'', '' '']]"
  let ?c = "\<lparr>total_rows = 3, rows_with_skus = 3, rows_with_urls = 1, rows_with_both = 1,
          missing_url_skus = [''A'', ''C'']\<rparr>"
  have h1: "[apr_path \<mapsto> ?p] apr_path = Some ?p" by simp
  have h2: "audit (DictReader ?p) = Inr ?c" by code_simp
  have cl: "counter_lines ?c =
     [''Total rows: 3'', ''Rows with SKUs: 3'', ''Rows with URLs: 1'',
      ''Rows with both SKU and URL: 1'', ''Rows with SKU but missing URL: 2'']"
    by code_simp
  have s1: "str_int 1 = ''1''" and s2: "str_int 2 = ''2''"
    by code_simp+
  have up: "[0..<length (missing_url_skus ?c)] = [0, 1]" by code_simp
  have ap: "apr_path = ''attached_assets/processed_APR Performance BAI 1.csv''"
    by (simp add: apr_path_def)
  from listing_threshold_rule [of "[apr_path \<mapsto> ?p]" apr_path ?p ?c "[]", OF h1 h2] h1 h2
  show ?thesis
    unfolding cl up by (simp add: s1 s2 ap [symmetric])
qed

text \<open>
  The single-file script on a file with ten rows that have a SKU and no URL: all ten are
  listed.
\<close>

theorem check_missing_urls_lists_ten:
  "snd (check_missing_urls
         [apr_path \<mapsto> ([''SKU'', ''Origin URL''] # replicate 10 [''A'', ''''])] []) =
     [''Total rows: 10'', ''Rows with SKUs: 10'', ''Rows with URLs: 0'',
      ''Rows with both SKU and URL: 0'', ''Rows with SKU but missing URL: 10'',
      CHR 0x0A # ''SKUs missing URLs:'', ''1. A'', ''2. A'', ''3. A'', ''4. A'',
      ''5. A'', ''6. A'', ''7. A'', ''8. A'', ''9. A'', ''10. A'']"
  by code_simp

lemma analyze_csv_ok:
  "fs filepath = Some parsed \<Longrightarrow> audit (DictReader parsed) = Inr c \<Longrightarrow>
   analyze_csv fs filepath out =
     (Inr (stats_of c),
      out @ [CHR 0x0A # ''Analyzing: '' @ filepath] @ counter_lines c @
      listing (missing_url_skus c))"
  by (simp add: analyze_csv_def Let_def)

text \<open>
  C5. The grand totals of the script are the elementwise sums of the four counters of the
  three results, that is the specification's summarize on the three results in their
  order; the lists of missing identifiers do not enter them (the totals are the same
  whatever the three lists are). Three sources with totals 10, 5, 3, with identifier
  2, 1, 0 and with both 1, 1, 0 give the grand total 18, 3 with identifier and 2 with
  both.
\<close>

theorem totals_elementwise_sum:
  "totals a b c = summary_of (spec_summarize [a, b, c]) \<and>
   totals a b c =
     \<lparr>total_records = total_stat a + total_stat b + total_stat c,
      total_with_skus = with_skus a + with_skus b + with_skus c,
      total_with_urls = with_urls a + with_urls b + with_urls c,
      total_with_both = with_both a + with_both b + with_both c\<rparr> \<and>
   totals (stats_of (c1\<lparr>missing_url_skus := m1\<rparr>)) (stats_of (c2\<lparr>missing_url_skus := m2\<rparr>))
          (stats_of (c3\<lparr>missing_url_skus := m3\<rparr>)) =
     totals (stats_of c1) (stats_of c2) (stats_of c3) \<and>
   totals \<lparr>total_stat = 10, with_skus = 2, with_urls = u1, with_both = 1\<rparr>
          \<lparr>total_stat = 5, with_skus = 1, with_urls = u2, with_both = 1\<rparr>
          \<lparr>total_stat = 3, with_skus = 0, with_urls = u3, with_both = 0\<rparr> =
     \<lparr>total_records = 18, total_with_skus = 3, total_with_urls = u1 + u2 + u3,
      total_with_both = 2\<rparr>"
  by (simp add: totals_def summary_of_def spec_summarize_def spec_sum_def spec_zero_def
      stats_of_def)

text \<open>
  The scenario of C5 as the claim words it: the three results sum to 2 with both, not 3.
\<close>

theorem totals_scenario_with_both:
  "total_with_both
     (totals \<lparr>total_stat = 10, with_skus = 2, with_urls = 1, with_both = 1\<rparr>
             \<lparr>total_stat = 5, with_skus = 1, with_urls = 1, with_both = 1\<rparr>
             \<lparr>total_stat = 3, with_skus = 0, with_urls = 0, with_both = 0\<rparr>) = 2 \<and>
   total_with_both
     (totals \<lparr>total_stat = 10, with_skus = 2, with_urls = 1, with_both = 1\<rparr>
             \<lparr>total_stat = 5, with_skus = 1, with_urls = 1, with_both = 1\<rparr>
             \<lparr>total_stat = 3, with_skus = 0, with_urls = 0, with_both = 0\<rparr>) \<noteq> 3"
  by (simp add: totals_def)

text \<open>
  C8. The elementwise sum of two results is commutative and associative, the grand totals
  of the script are this sum over the three results, and they are the same in whatever
  order the three results are summed.
\<close>

theorem summation_commutative_associative:
  "spec_sum a b = spec_sum b a \<and>
   spec_sum (spec_sum a b) c = spec_sum a (spec_sum b c) \<and>
   totals a b c = summary_of (spec_sum (spec_sum a b) c) \<and>
   totals a b c = totals a c b \<and> totals a b c = totals b a c \<and>
   totals a b c = totals b c a \<and> totals a b c = totals c a b \<and>
   totals a b c = totals c b a"
  by (simp add: totals_def summary_of_def spec_sum_def)

lemma run_loop_result:
  "fst (run_loop rows c) = (case rows_loop rows c of Inl e \<Rightarrow> Some e | Inr c' \<Rightarrow> None)"
  by (induction rows arbitrary: c) (auto simp: row_step_m_def split: sum.splits)

lemma run_loop_ok:
  "rows_loop rows c = Inr c' \<Longrightarrow> run_loop rows c = (None, [], c')"
  by (induction rows arbitrary: c) (auto simp: row_step_m_def split: sum.splits)

lemma analyze_csv_m_stateless:
  "fst (analyze_csv_m fs filepath m) = fst (analyze_csv fs filepath (stdout m)) \<and>
   stdout (snd (analyze_csv_m fs filepath m)) = snd (analyze_csv fs filepath (stdout m))"
proof (cases "fs filepath")
  case None
  then show ?thesis by (simp add: analyze_csv_m_def analyze_csv_def Let_def)
next
  case (Some parsed)
  show ?thesis
  proof (cases "audit (DictReader parsed)")
    case (Inl e)
    then have "fst (run_loop (DictReader parsed) init_counts) = Some e"
      by (simp add: run_loop_result audit_def)
    then obtain rest c where "run_loop (DictReader parsed) init_counts = (Some e, rest, c)"
      by (cases "run_loop (DictReader parsed) init_counts") auto
    with Some Inl show ?thesis
      by (simp add: analyze_csv_m_def analyze_csv_def Let_def)
  next
    case (Inr c)
    then have "run_loop (DictReader parsed) init_counts = (None, [], c)"
      by (simp add: run_loop_ok audit_def)
    with Some Inr show ?thesis
      by (simp add: analyze_csv_m_def analyze_csv_def Let_def)
  qed
qed

lemma check_missing_urls_m_stateless:
  "(case fst (check_missing_urls fs (stdout m)) of
      Inl e \<Rightarrow> fst (check_missing_urls_m fs m) = Some e
    | Inr c \<Rightarrow> fst (check_missing_urls_m fs m) = None \<and>
               vars (snd (check_missing_urls_m fs m)) = c) \<and>
   stdout (snd (check_missing_urls_m fs m)) = snd (check_missing_urls fs (stdout m))"
proof (cases "fs apr_path")
  case None
  then show ?thesis by (simp add: check_missing_urls_m_def check_missing_urls_def)
next
  case (Some parsed)
  show ?thesis
  proof (cases "audit (DictReader parsed)")
    case (Inl e)
    then have "fst (run_loop (DictReader parsed) init_counts) = Some e"
      by (simp add: run_loop_result audit_def)
    then obtain rest c where "run_loop (DictReader parsed) init_counts = (Some e, rest, c)"
      by (cases "run_loop (DictReader parsed) init_counts") auto
    with Some Inl show ?thesis
      by (simp add: check_missing_urls_m_def check_missing_urls_def Let_def)
  next
    case (Inr c)
    then have "run_loop (DictReader parsed) init_counts = (None, [], c)"
      by (simp add: run_loop_ok audit_def)
    with Some Inr show ?thesis
      by (simp add: check_missing_urls_m_def check_missing_urls_def Let_def)
  qed
qed

lemma analyze_csv_m_twice:
  "fst (analyze_csv_m fs filepath (snd (analyze_csv_m fs filepath m))) =
     fst (analyze_csv_m fs filepath m) \<and>
   vars (snd (analyze_csv_m fs filepath (snd (analyze_csv_m fs filepath m)))) =
     vars (snd (analyze_csv_m fs filepath m)) \<and>
   stdout (snd (analyze_csv_m fs filepath (snd (analyze_csv_m fs filepath m)))) =
     stdout (snd (analyze_csv_m fs filepath m)) @
     drop (length (stdout m)) (stdout (snd (analyze_csv_m fs filepath m)))"
  by (simp add: analyze_csv_m_def Let_def split: option.splits prod.splits)

lemma check_missing_urls_m_twice:
  "fst (check_missing_urls_m fs (snd (check_missing_urls_m fs m))) =
     fst (check_missing_urls_m fs m) \<and>
   vars (snd (check_missing_urls_m fs (snd (check_missing_urls_m fs m)))) =
     vars (snd (check_missing_urls_m fs m)) \<and>
   stdout (snd (check_missing_urls_m fs (snd (check_missing_urls_m fs m)))) =
     stdout (snd (check_missing_urls_m fs m)) @
     drop (length (stdout m)) (stdout (snd (check_missing_urls_m fs m)))"
  by (simp add: check_missing_urls_m_def Let_def split: option.splits prod.splits)

text \<open>
  C7. A second run of audit over the same files, started from the variables the first
  run has left (its counters, its list of missing identifiers, its used reader and
  standard output), ends as the first did: \<^verbatim>\<open>analyze_csv\<close> returns the same four
  counters, or raises the same exception, and both scripts end with the same counters and
  the same list of missing identifiers in their variables and print the same text again.
  Whatever the variables hold when a run starts, it returns and prints what the script
  does on its files alone.
\<close>

theorem second_run_identical:
  "fst (analyze_csv_m fs filepath (snd (analyze_csv_m fs filepath m))) =
     fst (analyze_csv_m fs filepath m) \<and>
   vars (snd (analyze_csv_m fs filepath (snd (analyze_csv_m fs filepath m)))) =
     vars (snd (analyze_csv_m fs filepath m)) \<and>
   stdout (snd (analyze_csv_m fs filepath (snd (analyze_csv_m fs filepath m)))) =
     stdout (snd (analyze_csv_m fs filepath m)) @
     drop (length (stdout m)) (stdout (snd (analyze_csv_m fs filepath m))) \<and>
   fst (check_missing_urls_m fs (snd (check_missing_urls_m fs m))) =
     fst (check_missing_urls_m fs m) \<and>
   vars (snd (check_missing_urls_m fs (snd (check_missing_urls_m fs m)))) =
     vars (snd (check_missing_urls_m fs m)) \<and>
   stdout (snd (check_missing_urls_m fs (snd (check_missing_urls_m fs m)))) =
     stdout (snd (check_missing_urls_m fs m)) @
     drop (length (stdout m)) (stdout (snd (check_missing_urls_m fs m))) \<and>
   fst (analyze_csv_m fs filepath m) = fst (analyze_csv fs filepath (stdout m)) \<and>
   stdout (snd (analyze_csv_m fs filepath m)) = snd (analyze_csv fs filepath (stdout m)) \<and>
   (case fst (check_missing_urls fs (stdout m)) of
      Inl e \<Rightarrow> fst (check_missing_urls_m fs m) = Some e
    | Inr c \<Rightarrow> fst (check_missing_urls_m fs m) = None \<and>
               vars (snd (check_missing_urls_m fs m)) = c) \<and>
   stdout (snd (check_missing_urls_m fs m)) = snd (check_missing_urls fs (stdout m))"
proof -
  note twice = analyze_csv_m_twice [of fs filepath m]
  note twice' = check_missing_urls_m_twice [of fs m]
  note same = analyze_csv_m_stateless [of fs filepath m]
  note same' = check_missing_urls_m_stateless [of fs m]
  from twice twice' same same' show ?thesis
    by (elim conjE) (intro conjI; assumption)
qed


text \<open>
  C6. When the three files are read without an exception, the script prints, after the
  report of the third file, the heading \<open>=== SUMMARY ===\<close> (after a line break) and four
  lines: the sums, over the three files, of the total rows, of the rows with SKUs, of the
  rows with URLs and of the rows with both. The summary has no line for the rows with a
  SKU and no URL.
\<close>

theorem summary_block:
  assumes "fs apr_path = Some p1" and "audit (DictReader p1) = Inr c1"
    and "fs artec_path = Some p2" and "audit (DictReader p2) = Inr c2"
    and "fs bilstein_path = Some p3" and "audit (DictReader p3) = Inr c3"
  shows "snd (check_csv_urls fs out) =
           snd (analyze_csv fs bilstein_path
                 (snd (analyze_csv fs artec_path (snd (analyze_csv fs apr_path out))))) @
           [CHR 0x0A # ''=== SUMMARY ==='',
            ''Total records across all CSVs: '' @
              str_int (total_rows c1 + total_rows c2 + total_rows c3),
            ''Total records with SKUs: '' @
              str_int (rows_with_skus c1 + rows_with_skus c2 + rows_with_skus c3),
            ''Total records with URLs: '' @
              str_int (rows_with_urls c1 + rows_with_urls c2 + rows_with_urls c3),
            ''Total records with both SKU and URL: '' @
              str_int (rows_with_both c1 + rows_with_both c2 + rows_with_both c3)]"
proof -
  have r1: "\<And>o1. analyze_csv fs apr_path o1 =
      (Inr (stats_of c1),
       o1 @ [CHR 0x0A # ''Analyzing: '' @ apr_path] @ counter_lines c1 @
       listing (missing_url_skus c1))"
    using assms(1,2) by (rule analyze_csv_ok)
  have r2: "\<And>o2. analyze_csv fs artec_path o2 =
      (Inr (stats_of c2),
       o2 @ [CHR 0x0A # ''Analyzing: '' @ artec_path] @ counter_lines c2 @
       listing (missing_url_skus c2))"
    using assms(3,4) by (rule analyze_csv_ok)
  have r3: "\<And>o3. analyze_csv fs bilstein_path o3 =
      (Inr (stats_of c3),
       o3 @ [CHR 0x0A # ''Analyzing: '' @ bilstein_path] @ counter_lines c3 @
       listing (missing_url_skus c3))"
    using assms(5,6) by (rule analyze_csv_ok)
  show ?thesis
    by (simp add: check_csv_urls_def r1 r2 r3 summary_lines_def totals_def stats_of_def)
qed

theorem summary_block_witness:
  "[apr_path \<mapsto> [[''SKU'', ''Origin URL''], [''A'', '''']],
    artec_path \<mapsto> [[''SKU'', ''Origin URL''], [''B'', ''u''], ['''', ''v'']],
    bilstein_path \<mapsto> [[''SKU'', ''Origin URL'']]] apr_path =
     Some [[''SKU'', ''Origin URL''], [''A'', '''']] \<and>
   audit (DictReader [[''SKU'', ''Origin URL''], [''A'', '''']]) =
     Inr \<lparr>total_rows = 1, rows_with_skus = 1, rows_with_urls = 0, rows_with_both = 0,
          missing_url_skus = [''A'']\<rparr> \<and>
   audit (DictReader [[''SKU'', ''Origin URL''], [''B'', ''u''], ['''', ''v'']]) =
     Inr \<lparr>total_rows = 2, rows_with_skus = 1, rows_with_urls = 2, rows_with_both = 1,
          missing_url_skus = []\<rparr> \<and>
   audit (DictReader [[''SKU'', ''Origin URL'']]) =
     Inr \<lparr>total_rows = 0, rows_with_skus = 0, rows_with_urls = 0, rows_with_both = 0,
          missing_url_skus = []\<rparr> \<and>
   drop 14 (snd (check_csv_urls
      [apr_path \<mapsto> [[''SKU'', ''Origin URL''], [''A'', '''']],
       artec_path \<mapsto> [[''SKU'', ''Origin URL''], [''B'', ''u''], ['''', ''v'']],
       bilstein_path \<mapsto> [[''SKU'', ''Origin URL'']]] [])) =
     [CHR 0x0A # ''Analyzing: attached_assets/processed_Bilstein BAI 1.csv'',
      ''Total rows: 0'', ''Rows with SKUs: 0'', ''Rows with URLs: 0'',
      ''Rows with both SKU and URL: 0'', ''Rows with SKU but missing URL: 0'',
      CHR 0x0A # ''=== SUMMARY ==='',
      ''Total records across all CSVs: 3'', ''Total records with SKUs: 2'',
      ''Total records with URLs: 2'', ''Total records with both SKU and URL: 1'']"
proof -
  let ?p1 = "[[''SKU'', ''Origin URL''], [''A'', '''']]"
  let ?p2 = "[[''SKU'', ''Origin URL''], [''B'', ''u''], ['''', ''v'']]"
  let ?p3 = "[[''SKU'', ''Origin URL'']]"
  let ?fs = "[apr_path \<mapsto> ?p1, artec_path \<mapsto> ?p2, bilstein_path \<mapsto> ?p3]"
  let ?c1 = "\<lparr>total_rows = 1, rows_with_skus = 1, rows_with_urls = 0, rows_with_both = 0,
          missing_url_skus = [''A'']\<rparr>"
  let ?c2 = "\<lparr>total_rows = 2, rows_with_skus = 1, rows_with_urls = 2, rows_with_both = 1,
          missing_url_skus = []\<rparr>"
  let ?c3 = "\<lparr>total_rows = 0, rows_with_skus = 0, rows_with_urls = 0, rows_with_both = 0,
          missing_url_skus = []\<rparr>"
  have f1: "?fs apr_path = Some ?p1"
    by (simp add: apr_path_def artec_path_def bilstein_path_def)
  have f2: "?fs artec_path = Some ?p2"
    by (simp add: apr_path_def artec_path_def bilstein_path_def)
  have f3: "?fs bilstein_path = Some ?p3" by simp
  have a1: "audit (DictReader ?p1) = Inr ?c1" by code_simp
  have a2: "audit (DictReader ?p2) = Inr ?c2" by code_simp
  have a3: "audit (DictReader ?p3) = Inr ?c3" by code_simp
  have pre: "snd (analyze_csv ?fs bilstein_path
                 (snd (analyze_csv ?fs artec_path (snd (analyze_csv ?fs apr_path [])))))
     = [CHR 0x0A # ''Analyzing: attached_assets/processed_APR Performance BAI 1.csv'',
        ''Total rows: 1'', ''Rows with SKUs: 1'', ''Rows with URLs: 0'',
        ''Rows with both SKU and URL: 0'', ''Rows with SKU but missing URL: 1'',
        CHR 0x0A # ''SKUs missing URLs:'', ''1. A'',
        CHR 0x0A # ''Analyzing: attached_assets/processed_ARTEC BAI 1.csv'',
        ''Total rows: 2'', ''Rows with SKUs: 1'', ''Rows with URLs: 2'',
        ''Rows with both SKU and URL: 1'', ''Rows with SKU but missing URL: 0'',
        CHR 0x0A # ''Analyzing: attached_assets/processed_Bilstein BAI 1.csv'',
        ''Total rows: 0'', ''Rows with SKUs: 0'', ''Rows with URLs: 0'',
        ''Rows with both SKU and URL: 0'', ''Rows with SKU but missing URL: 0'']"
    by code_simp
  have s: "str_int 3 = ''3''" "str_int 2 = ''2''" "str_int 1 = ''1''"
    by code_simp+
  from summary_block [of ?fs ?p1 ?c1 ?p2 ?c2 ?p3 ?c3 "[]", OF f1 a1 f2 a2 f3 a3]
  have "drop 14 (snd (check_csv_urls ?fs [])) =
     [CHR 0x0A # ''Analyzing: attached_assets/processed_Bilstein BAI 1.csv'',
      ''Total rows: 0'', ''Rows with SKUs: 0'', ''Rows with URLs: 0'',
      ''Rows with both SKU and URL: 0'', ''Rows with SKU but missing URL: 0'',
      CHR 0x0A # ''=== SUMMARY ==='',
      ''Total records across all CSVs: 3'', ''Total records with SKUs: 2'',
      ''Total records with URLs: 2'', ''Total records with both SKU and URL: 1'']"
    unfolding pre by (simp add: s)
  with f1 a1 a2 a3 show ?thesis by (intro conjI)
qed

text \<open>
  A whole run of the script: the report of the first file has the line for the rows with
  a SKU and no URL, the summary ends after the line for the rows with both.
\<close>

theorem summary_has_four_counter_lines:
  "snd (check_csv_urls
      [apr_path \<mapsto> [[''SKU'', ''Origin URL''], [''A'', '''']],
       artec_path \<mapsto> [[''SKU'', ''Origin URL'']],
       bilstein_path \<mapsto> [[''SKU'', ''Origin URL'']]] []) =
     [CHR 0x0A # ''Analyzing: attached_assets/processed_APR Performance BAI 1.csv'',
      ''Total rows: 1'', ''Rows with SKUs: 1'', ''Rows with URLs: 0'',
      ''Rows with both SKU and URL: 0'', ''Rows with SKU but missing URL: 1'',
      CHR 0x0A # ''SKUs missing URLs:'', ''1. A'',
      CHR 0x0A # ''Analyzing: attached_assets/processed_ARTEC BAI 1.csv'',
      ''Total rows: 0'', ''Rows with SKUs: 0'', ''Rows with URLs: 0'',
      ''Rows with both SKU and URL: 0'', ''Rows with SKU but missing URL: 0'',
      CHR 0x0A # ''Analyzing: attached_assets/processed_Bilstein BAI 1.csv'',
      ''Total rows: 0'', ''Rows with SKUs: 0'', ''Rows with URLs: 0'',
      ''Rows with both SKU and URL: 0'', ''Rows with SKU but missing URL: 0'',
      CHR 0x0A # ''=== SUMMARY ==='',
      ''Total records across all CSVs: 1'', ''Total records with SKUs: 1'',
      ''Total records with URLs: 0'', ''Total records with both SKU and URL: 0'']"
  by code_simp

end
